theory Spec2Isabelle
  imports Main
begin

section \<open>The signalling server of server.js\<close>

text \<open>
  server.js registers, for every connection, five event handlers on a socket.io server:
  \<^verbatim>\<open>join\<close>, \<^verbatim>\<open>start_call\<close>, \<^verbatim>\<open>webrtc_offer\<close>, \<^verbatim>\<open>webrtc_answer\<close> and
  \<^verbatim>\<open>webrtc_ice_candidate\<close>. The handlers are run to completion one at a time by the
  event loop, so each one is a function from the state of the server to the new state and
  the list of messages it has sent. The calls of \<^verbatim>\<open>console.log\<close> write to the
  standard output only and are left out.
\<close>

subsection \<open>Data\<close>

type_synonym sid = string
  \<comment> \<open>\<^verbatim>\<open>socket.id\<close>, the identifier of a connection\<close>

type_synonym room = string
  \<comment> \<open>a room identifier, as sent by the client\<close>

text \<open>The opaque data of a signalling message, as it comes off the wire.\<close>

datatype jsval =
    JUndefined
  | JNull
  | JBool bool
  | JNum int
  | JStr string
  | JArr "jsval list"
  | JObj "(string \<times> jsval) list"

text \<open>
  The inbound event objects: \<^verbatim>\<open>{ roomId, sdp, type }\<close> for an offer or an answer,
  \<^verbatim>\<open>{ roomId, label, candidate }\<close> for a candidate.
\<close>

record room_event =
  roomId :: room

record sdp_event = room_event +
  sdp :: jsval
  sdp_type :: jsval

record ice_event = room_event +
  label :: jsval
  candidate :: jsval

text \<open>
  An argument of \<^verbatim>\<open>emit(name, ...args)\<close>: the room identifier, the \<^verbatim>\<open>sdp\<close>
  field of an event, or a whole candidate event object.
\<close>

datatype arg =
    ArgRoom room
  | ArgSdp jsval
  | ArgIce ice_event

text \<open>One message sent by the server: to whom, under which event name, with which arguments.\<close>

datatype emission = Emit (recipient: sid) (event_name: string) (args: "arg list")

text \<open>
  The state the handlers read and write lives in socket.io:
  \<^verbatim>\<open>io.sockets.adapter.rooms\<close>, a \<^verbatim>\<open>Map\<close> from room identifiers to \<^verbatim>\<open>Set\<close>s
  of socket identifiers, and the connected sockets of the namespace. A \<^verbatim>\<open>Set\<close>
  keeps insertion order and holds no element twice: it is a list here, and
  \<open>set_add\<close> appends an element only when it is absent.
\<close>

record state =
  rooms :: "room \<rightharpoonup> sid list"
  sockets :: "sid list"

definition init_state :: state where
  "init_state = \<lparr>rooms = Map.empty, sockets = []\<rparr>"

subsection \<open>The socket.io operations that server.js calls\<close>

text \<open>
  socket.io is a dependency of the repository, not part of it. Its operations are
  modelled by their documented behaviour:
  \<^item> \<^verbatim>\<open>Set.prototype.add\<close>: no effect on a set that has the element;
  \<^item> \<^verbatim>\<open>socket.join(room)\<close>: adds the socket to the room, creating the room when it
    is not in the table;
  \<^item> \<^verbatim>\<open>socket.emit(ev, ...args)\<close>: sends to this socket's client only;
  \<^item> \<^verbatim>\<open>socket.to(room).emit(ev, ...args)\<close>: sends to every socket that has joined
    the room, except the sockets in the room named by the sending socket's identifier.
    The sending socket is in that room from its connection on, and so is any socket that
    has joined it since.
\<close>

definition set_add :: "sid \<Rightarrow> sid list \<Rightarrow> sid list" where
  "set_add c xs = (if c \<in> set xs then xs else xs @ [c])"

definition occupants :: "state \<Rightarrow> room \<Rightarrow> sid list" where
  "occupants s r = (case rooms s r of None \<Rightarrow> [] | Some xs \<Rightarrow> xs)"

definition socket_join :: "sid \<Rightarrow> room \<Rightarrow> state \<Rightarrow> state" where
  "socket_join c r s =
     s\<lparr>rooms := (rooms s)(r \<mapsto> (case rooms s r of None \<Rightarrow> [c] | Some xs \<Rightarrow> set_add c xs))\<rparr>"

definition socket_emit :: "sid \<Rightarrow> string \<Rightarrow> arg list \<Rightarrow> emission list" where
  "socket_emit c ev as = [Emit c ev as]"

definition socket_to_emit :: "sid \<Rightarrow> room \<Rightarrow> string \<Rightarrow> arg list \<Rightarrow> state \<Rightarrow> emission list" where
  "socket_to_emit c r ev as s =
     map (\<lambda>d. Emit d ev as) (filter (\<lambda>d. d \<notin> set (occupants s c)) (occupants s r))"

subsection \<open>The handlers\<close>

text \<open>
  \<^verbatim>\<open>const selectedRoom = io.sockets.adapter.rooms.get(roomId)\<close>
  \<^verbatim>\<open>const numberOfClients = selectedRoom ? selectedRoom.size : 0\<close>
  A \<^verbatim>\<open>Set\<close> object is truthy also when it is empty, so the count is the size of
  the set when the room is in the table and 0 when it is not.
\<close>

definition numberOfClients :: "state \<Rightarrow> room \<Rightarrow> nat" where
  "numberOfClients s r = (case rooms s r of None \<Rightarrow> 0 | Some selectedRoom \<Rightarrow> length selectedRoom)"

definition on_join :: "sid \<Rightarrow> room \<Rightarrow> state \<Rightarrow> state \<times> emission list" where
  "on_join socket r s =
     (if numberOfClients s r = 0 then
        (socket_join socket r s, socket_emit socket ''room_created'' [ArgRoom r])
      else if numberOfClients s r = 1 then
        (socket_join socket r s, socket_emit socket ''room_joined'' [ArgRoom r])
      else
        (s, socket_emit socket ''full_room'' [ArgRoom r]))"

definition on_start_call :: "sid \<Rightarrow> room \<Rightarrow> state \<Rightarrow> state \<times> emission list" where
  "on_start_call socket r s = (s, socket_to_emit socket r ''start_call'' [] s)"

definition on_webrtc_offer :: "sid \<Rightarrow> sdp_event \<Rightarrow> state \<Rightarrow> state \<times> emission list" where
  "on_webrtc_offer socket event s =
     (s, socket_to_emit socket (roomId event) ''webrtc_offer'' [ArgSdp (sdp event)] s)"

definition on_webrtc_answer :: "sid \<Rightarrow> sdp_event \<Rightarrow> state \<Rightarrow> state \<times> emission list" where
  "on_webrtc_answer socket event s =
     (s, socket_to_emit socket (roomId event) ''webrtc_answer'' [ArgSdp (sdp event)] s)"

definition on_webrtc_ice_candidate :: "sid \<Rightarrow> ice_event \<Rightarrow> state \<Rightarrow> state \<times> emission list" where
  "on_webrtc_ice_candidate socket event s =
     (s, socket_to_emit socket (roomId event) ''webrtc_ice_candidate'' [ArgIce event] s)"

subsection \<open>Connection and disconnection\<close>

text \<open>
  server.js has no code for either. On a connection socket.io gives the socket a new
  identifier and has it join the room named by that identifier, before the callback of
  \<^verbatim>\<open>io.on('connection', ...)\<close> registers the handlers.
\<close>

definition on_connection :: "sid \<Rightarrow> state \<Rightarrow> state" where
  "on_connection c s = (socket_join c c s)\<lparr>sockets := set_add c (sockets s)\<rparr>"

text \<open>
  Modelled from the spec: the disconnect handling, for which server.js registers no
  handler and which is done inside socket.io. In the spec's words it "removes the
  connection from whatever room it occupies (if any) and updates the Room Table", and
  "a room with zero occupants is not retained".
\<close>

definition on_disconnect :: "sid \<Rightarrow> state \<Rightarrow> state" where
  "on_disconnect c s =
     \<lparr>rooms = (\<lambda>r. case rooms s r of
                  None \<Rightarrow> None
                | Some xs \<Rightarrow> (if removeAll c xs = [] then None else Some (removeAll c xs))),
      sockets = removeAll c (sockets s)\<rparr>"

subsection \<open>The event loop\<close>

datatype event =
    Connect sid
  | Join sid room
  | StartCall sid room
  | Offer sid sdp_event
  | Answer sid sdp_event
  | IceCandidate sid ice_event
  | Disconnect sid

text \<open>
  A connection arrives under an identifier that is neither a connected socket nor the
  name of a room in the table (socket.io draws the identifier at random for every
  connection). The handlers of a socket run only while that socket is connected.
\<close>

fun step :: "state \<Rightarrow> event \<Rightarrow> state \<times> emission list" where
  "step s (Connect c) =
     (if c \<notin> set (sockets s) \<and> rooms s c = None then (on_connection c s, []) else (s, []))"
| "step s (Join c r) = (if c \<in> set (sockets s) then on_join c r s else (s, []))"
| "step s (StartCall c r) = (if c \<in> set (sockets s) then on_start_call c r s else (s, []))"
| "step s (Offer c e) = (if c \<in> set (sockets s) then on_webrtc_offer c e s else (s, []))"
| "step s (Answer c e) = (if c \<in> set (sockets s) then on_webrtc_answer c e s else (s, []))"
| "step s (IceCandidate c e) =
     (if c \<in> set (sockets s) then on_webrtc_ice_candidate c e s else (s, []))"
| "step s (Disconnect c) = (if c \<in> set (sockets s) then (on_disconnect c s, []) else (s, []))"

text \<open>Running a list of events: the final state and everything sent, in order.\<close>

fun exec :: "state \<Rightarrow> event list \<Rightarrow> state \<times> emission list" where
  "exec s [] = (s, [])"
| "exec s (e # es) =
     (case step s e of (s', out) \<Rightarrow> (case exec s' es of (s'', out') \<Rightarrow> (s'', out @ out')))"

inductive reachable :: "state \<Rightarrow> bool" where
  reachable_init: "reachable init_state"
| reachable_step: "reachable s \<Longrightarrow> reachable (fst (step s e))"

subsection \<open>Start-up\<close>

text \<open>
  \<^verbatim>\<open>const port = process.env.PORT || 3000\<close>
  An entry of \<^verbatim>\<open>process.env\<close> is a string when the variable is set and
  \<^verbatim>\<open>undefined\<close> when it is not; \<^verbatim>\<open>||\<close> yields its right operand when the
  left one is falsy, which for these values means \<^verbatim>\<open>undefined\<close> or the empty string.
\<close>

datatype port_value = PortString string | PortNumber nat

text \<open>The environment \<^verbatim>\<open>process.env\<close> is a list of pairs of a name and a value.\<close>

definition port :: "(string \<times> string) list \<Rightarrow> port_value" where
  "port env =
     (case map_of env ''PORT'' of
        None \<Rightarrow> PortNumber 3000
      | Some v \<Rightarrow> (if v = [] then PortNumber 3000 else PortString v))"

section \<open>Basic facts\<close>

lemmas run_defs = init_state_def on_connection_def on_join_def numberOfClients_def
  socket_join_def set_add_def occupants_def socket_emit_def socket_to_emit_def
  on_start_call_def on_webrtc_offer_def on_webrtc_answer_def on_webrtc_ice_candidate_def
  on_disconnect_def

lemma numberOfClients_occupants: "numberOfClients s r = length (occupants s r)"
  by (simp add: numberOfClients_def occupants_def split: option.splits)

lemma rooms_socket_join:
  "rooms (socket_join c r s) q =
     (if q = r then Some (case rooms s r of None \<Rightarrow> [c] | Some xs \<Rightarrow> set_add c xs) else rooms s q)"
  by (simp add: socket_join_def)

lemma occupants_socket_join:
  "occupants (socket_join c r s) q = (if q = r then set_add c (occupants s r) else occupants s q)"
  by (simp add: occupants_def socket_join_def set_add_def split: option.splits)

lemma sockets_socket_join: "sockets (socket_join c r s) = sockets s"
  by (simp add: socket_join_def)

lemma set_set_add: "set (set_add c xs) = insert c (set xs)"
  by (auto simp: set_add_def)

lemma recipients_socket_to_emit:
  "map recipient (socket_to_emit c r ev as s) =
     filter (\<lambda>d. d \<notin> set (occupants s c)) (occupants s r)"
  by (simp add: socket_to_emit_def comp_def)

lemma rooms_on_disconnect:
  "rooms (on_disconnect c s) r =
     (case rooms s r of None \<Rightarrow> None
      | Some xs \<Rightarrow> (if removeAll c xs = [] then None else Some (removeAll c xs)))"
  by (simp add: on_disconnect_def)

lemma occupants_on_disconnect: "occupants (on_disconnect c s) r = removeAll c (occupants s r)"
  by (simp add: occupants_def rooms_on_disconnect split: option.splits)

lemma length_removeAll_le: "length (removeAll c xs) \<le> length xs"
  by (induction xs) (auto simp: le_SucI)

lemma on_join_empty:
  "numberOfClients s r = 0 \<Longrightarrow>
   on_join c r s = (socket_join c r s, [Emit c ''room_created'' [ArgRoom r]])"
  by (simp add: on_join_def socket_emit_def)

lemma on_join_one:
  "numberOfClients s r = 1 \<Longrightarrow>
   on_join c r s = (socket_join c r s, [Emit c ''room_joined'' [ArgRoom r]])"
  by (simp add: on_join_def socket_emit_def)

lemma on_join_full:
  "2 \<le> numberOfClients s r \<Longrightarrow> on_join c r s = (s, [Emit c ''full_room'' [ArgRoom r]])"
  by (simp add: on_join_def socket_emit_def)

lemma fst_exec_Cons: "fst (exec s (e # es)) = fst (exec (fst (step s e)) es)"
  by (cases "step s e"; cases "exec (fst (step s e)) es") simp

lemma distinct_singleton: "distinct ys \<Longrightarrow> set ys = {b} \<Longrightarrow> ys = [b]"
proof (cases ys)
  case Nil
  assume "set ys = {b}"
  with Nil show ?thesis by simp
next
  case (Cons y ys')
  assume d: "distinct ys" and s: "set ys = {b}"
  from s Cons have "y = b" by auto
  moreover from d s Cons \<open>y = b\<close> have "ys' = []" by (cases ys') auto
  ultimately show ?thesis using Cons by simp
qed

lemma other_of_two:
  assumes "distinct xs" and "set xs = {A, B}" and "A \<noteq> B"
  shows "filter (\<lambda>d. d \<noteq> A) xs = [B]"
proof (rule distinct_singleton)
  show "distinct (filter (\<lambda>d. d \<noteq> A) xs)" using assms(1) by simp
  show "set (filter (\<lambda>d. d \<noteq> A) xs) = {B}" using assms(2,3) by auto
qed

lemma removeAll_of_two:
  assumes "distinct xs" and "set xs = {A, B}" and "A \<noteq> B"
  shows "removeAll A xs = [B]"
  using other_of_two [OF assms] by (simp add: removeAll_filter_not_eq eq_commute [of A])

section \<open>The rooms of a reachable state\<close>

text \<open>
  Every room in the table of a reachable state lists its occupants without repetition,
  is not empty and has at most two occupants. Each operation keeps the three properties
  together.
\<close>

lemma on_join_rooms_inv:
  assumes inv: "\<And>r xs. rooms s r = Some xs \<Longrightarrow> distinct xs \<and> xs \<noteq> [] \<and> length xs \<le> 2"
    and new: "rooms (fst (on_join c q s)) r = Some ys"
  shows "distinct ys \<and> ys \<noteq> [] \<and> length ys \<le> 2"
proof (cases "r = q \<and> numberOfClients s q < 2")
  case False
  then have "rooms (fst (on_join c q s)) r = rooms s r"
    by (auto simp: on_join_def rooms_socket_join)
  with new inv show ?thesis by simp
next
  case True
  then have upd: "rooms (fst (on_join c q s)) r =
      Some (case rooms s q of None \<Rightarrow> [c] | Some xs \<Rightarrow> set_add c xs)"
    by (auto simp: on_join_def rooms_socket_join)
  show ?thesis
  proof (cases "rooms s q")
    case None
    with upd new show ?thesis by auto
  next
    case (Some xs)
    have "distinct xs" using inv [OF Some] by simp
    moreover have "length xs < 2" using True Some by (simp add: numberOfClients_def)
    ultimately show ?thesis
      using upd new Some by (auto simp: set_add_def)
  qed
qed

lemma on_disconnect_rooms_inv:
  assumes inv: "\<And>r xs. rooms s r = Some xs \<Longrightarrow> distinct xs \<and> xs \<noteq> [] \<and> length xs \<le> 2"
    and new: "rooms (on_disconnect c s) r = Some ys"
  shows "distinct ys \<and> ys \<noteq> [] \<and> length ys \<le> 2"
proof (cases "rooms s r")
  case None
  with new show ?thesis by (simp add: rooms_on_disconnect)
next
  case (Some xs)
  have old: "distinct xs \<and> length xs \<le> 2" using inv [OF Some] by simp
  have ys: "ys = removeAll c xs \<and> ys \<noteq> []"
    using new Some by (auto simp: rooms_on_disconnect split: if_splits)
  have "length ys \<le> length xs" using ys length_removeAll_le [of c xs] by simp
  then have "length ys \<le> 2" using old by linarith
  moreover have "distinct ys" using ys old by (simp add: distinct_removeAll)
  ultimately show ?thesis using ys by blast
qed

lemma on_connection_rooms_inv:
  assumes inv: "\<And>r xs. rooms s r = Some xs \<Longrightarrow> distinct xs \<and> xs \<noteq> [] \<and> length xs \<le> 2"
    and fresh: "rooms s c = None"
    and new: "rooms (on_connection c s) r = Some ys"
  shows "distinct ys \<and> ys \<noteq> [] \<and> length ys \<le> 2"
proof (cases "r = c")
  case True
  with new fresh show ?thesis by (auto simp: on_connection_def rooms_socket_join)
next
  case False
  with new have "rooms s r = Some ys" by (simp add: on_connection_def rooms_socket_join)
  with inv show ?thesis by simp
qed

lemma step_rooms_inv:
  assumes inv: "\<And>r xs. rooms s r = Some xs \<Longrightarrow> distinct xs \<and> xs \<noteq> [] \<and> length xs \<le> 2"
    and new: "rooms (fst (step s e)) r = Some ys"
  shows "distinct ys \<and> ys \<noteq> [] \<and> length ys \<le> 2"
proof (cases e)
  case (Connect c)
  with new inv on_connection_rooms_inv [of s c r ys] show ?thesis
    by (auto split: if_splits)
next
  case (Join c q)
  with new inv on_join_rooms_inv [of s c q r ys] show ?thesis
    by (auto split: if_splits)
next
  case (Disconnect c)
  with new inv on_disconnect_rooms_inv [of s c r ys] show ?thesis
    by (auto split: if_splits)
next
  case (StartCall c q)
  with new inv show ?thesis by (auto simp: on_start_call_def split: if_splits)
next
  case (Offer c ev)
  with new inv show ?thesis by (auto simp: on_webrtc_offer_def split: if_splits)
next
  case (Answer c ev)
  with new inv show ?thesis by (auto simp: on_webrtc_answer_def split: if_splits)
next
  case (IceCandidate c ev)
  with new inv show ?thesis by (auto simp: on_webrtc_ice_candidate_def split: if_splits)
qed

lemma reachable_rooms_inv:
  "reachable s \<Longrightarrow> rooms s r = Some xs \<Longrightarrow> distinct xs \<and> xs \<noteq> [] \<and> length xs \<le> 2"
proof (induction arbitrary: r xs rule: reachable.induct)
  case reachable_init
  then show ?case by (simp add: init_state_def)
next
  case (reachable_step s e)
  show ?case
    by (rule step_rooms_inv [of s e r xs]) (use reachable_step in auto)
qed

lemma reachable_occupants:
  "reachable s \<Longrightarrow> distinct (occupants s r) \<and> length (occupants s r) \<le> 2"
  using reachable_rooms_inv [of s r] by (auto simp: occupants_def split: option.splits)

lemma reachable_exec: "reachable s \<Longrightarrow> reachable (fst (exec s es))"
proof (induction es arbitrary: s)
  case Nil
  then show ?case by simp
next
  case (Cons e es)
  have "reachable (fst (step s e))" using Cons.prems by (rule reachable_step)
  from Cons.IH [OF this] show ?case by (simp only: fst_exec_Cons)
qed

section \<open>A run of joins to one room\<close>

lemma exec_joins_full:
  "2 \<le> numberOfClients s r \<Longrightarrow> set cs \<subseteq> set (sockets s) \<Longrightarrow>
   exec s (map (\<lambda>c. Join c r) cs) = (s, map (\<lambda>c. Emit c ''full_room'' [ArgRoom r]) cs)"
  by (induction cs) (simp_all add: on_join_full)

lemma replies_from_third:
  "2 \<le> n \<Longrightarrow>
   map (\<lambda>(i, c). Emit c (if i = 0 then ''room_created'' else if i = 1 then ''room_joined''
                          else ''full_room'') [ArgRoom r]) (enumerate n cs) =
   map (\<lambda>c. Emit c ''full_room'' [ArgRoom r]) cs"
  by (induction cs arbitrary: n) simp_all

lemma exec_joins_fresh:
  assumes fresh: "numberOfClients s r = 0" and dist: "distinct cs"
    and conn: "set cs \<subseteq> set (sockets s)"
  shows "snd (exec s (map (\<lambda>c. Join c r) cs)) =
           map (\<lambda>(i, c). Emit c (if i = 0 then ''room_created'' else if i = 1 then ''room_joined''
                                  else ''full_room'') [ArgRoom r]) (enumerate 0 cs) \<and>
         occupants (fst (exec s (map (\<lambda>c. Join c r) cs))) r = take 2 cs"
proof (cases cs)
  case Nil
  with fresh show ?thesis by (simp add: numberOfClients_occupants)
next
  case (Cons c1 cs1)
  define s1 where "s1 = socket_join c1 r s"
  have occ0: "occupants s r = []" using fresh by (simp add: numberOfClients_occupants)
  have j1: "on_join c1 r s = (s1, [Emit c1 ''room_created'' [ArgRoom r]])"
    using fresh by (simp add: on_join_empty s1_def)
  have occ1: "occupants s1 r = [c1]"
    by (simp add: s1_def occupants_socket_join occ0 set_add_def)
  have sock1: "sockets s1 = sockets s" by (simp add: s1_def sockets_socket_join)
  show ?thesis
  proof (cases cs1)
    case Nil
    with Cons conn j1 occ1 show ?thesis by simp
  next
    case (Cons c2 cs2)
    define s2 where "s2 = socket_join c2 r s1"
    have ne: "c2 \<noteq> c1" using dist \<open>cs = c1 # cs1\<close> Cons by auto
    have j2: "on_join c2 r s1 = (s2, [Emit c2 ''room_joined'' [ArgRoom r]])"
      by (simp add: on_join_one numberOfClients_occupants occ1 s2_def)
    have occ2: "occupants s2 r = [c1, c2]"
      using ne by (simp add: s2_def occupants_socket_join occ1 set_add_def)
    have sock2: "sockets s2 = sockets s" by (simp add: s2_def sockets_socket_join sock1)
    have rest: "exec s2 (map (\<lambda>c. Join c r) cs2) =
                  (s2, map (\<lambda>c. Emit c ''full_room'' [ArgRoom r]) cs2)"
      using conn \<open>cs = c1 # cs1\<close> Cons
      by (intro exec_joins_full) (simp_all add: numberOfClients_occupants occ2 sock2)
    have en: "enumerate 0 (c1 # c2 # cs2) = (0, c1) # (1, c2) # enumerate 2 cs2"
      by (simp add: numeral_2_eq_2)
    show ?thesis
      using conn \<open>cs = c1 # cs1\<close> Cons j1 j2 rest occ2
      by (simp add: en sock1 replies_from_third del: enumerate_simps)
  qed
qed

section \<open>Admission\<close>

text \<open>
  C1. A join to a room with no occupant adds the requester and answers
  \<^verbatim>\<open>room_created\<close>; with one occupant it adds the requester and answers
  \<^verbatim>\<open>room_joined\<close>; with two occupants it leaves the state as it is and answers
  \<^verbatim>\<open>full_room\<close>. The answer is one message, to the requester, carrying the room
  identifier, and no other room changes. When distinct connected sockets \<open>cs\<close> join a
  room without occupants one after the other, the first is answered \<^verbatim>\<open>room_created\<close>,
  the second \<^verbatim>\<open>room_joined\<close>, every later one \<^verbatim>\<open>full_room\<close>, and the room ends
  with the first two of them.
\<close>

theorem join_admission:
  "(numberOfClients s r = 0 \<longrightarrow>
      snd (on_join c r s) = [Emit c ''room_created'' [ArgRoom r]] \<and>
      occupants (fst (on_join c r s)) r = [c]) \<and>
   (numberOfClients s r = 1 \<longrightarrow>
      snd (on_join c r s) = [Emit c ''room_joined'' [ArgRoom r]] \<and>
      occupants (fst (on_join c r s)) r =
        (if c \<in> set (occupants s r) then occupants s r else occupants s r @ [c])) \<and>
   (numberOfClients s r = 2 \<longrightarrow>
      snd (on_join c r s) = [Emit c ''full_room'' [ArgRoom r]] \<and>
      fst (on_join c r s) = s) \<and>
   (q \<noteq> r \<longrightarrow> occupants (fst (on_join c r s)) q = occupants s q) \<and>
   (numberOfClients s r = 0 \<and> distinct cs \<and> set cs \<subseteq> set (sockets s) \<longrightarrow>
      snd (exec s (map (\<lambda>c. Join c r) cs)) =
        map (\<lambda>(i, c). Emit c (if i = 0 then ''room_created'' else if i = 1 then ''room_joined''
                               else ''full_room'') [ArgRoom r]) (enumerate 0 cs) \<and>
      occupants (fst (exec s (map (\<lambda>c. Join c r) cs))) r = take 2 cs)"
proof -
  have created: "snd (on_join c r s) = [Emit c ''room_created'' [ArgRoom r]] \<and>
      occupants (fst (on_join c r s)) r = [c]" if "numberOfClients s r = 0"
    using that
    by (simp add: on_join_empty occupants_socket_join numberOfClients_occupants set_add_def)
  have joined: "snd (on_join c r s) = [Emit c ''room_joined'' [ArgRoom r]] \<and>
      occupants (fst (on_join c r s)) r =
        (if c \<in> set (occupants s r) then occupants s r else occupants s r @ [c])"
    if "numberOfClients s r = 1"
    using that by (simp add: on_join_one occupants_socket_join set_add_def)
  have full: "snd (on_join c r s) = [Emit c ''full_room'' [ArgRoom r]] \<and>
      fst (on_join c r s) = s" if "numberOfClients s r = 2"
    using that by (simp add: on_join_full)
  have other: "occupants (fst (on_join c r s)) q = occupants s q" if "q \<noteq> r"
    using that by (simp add: on_join_def occupants_socket_join)
  show ?thesis
    using created joined full other exec_joins_fresh [of s r cs] by blast
qed

theorem join_admission_witness:
  "numberOfClients (fst (exec init_state [Connect ''a'', Connect ''b'', Connect ''c''])) ''42'' = 0 \<and>
   snd (exec (fst (exec init_state [Connect ''a'', Connect ''b'', Connect ''c'']))
          (map (\<lambda>c. Join c ''42'') [''a'', ''b'', ''c''])) =
     [Emit ''a'' ''room_created'' [ArgRoom ''42''],
      Emit ''b'' ''room_joined'' [ArgRoom ''42''],
      Emit ''c'' ''full_room'' [ArgRoom ''42'']] \<and>
   occupants (fst (exec (fst (exec init_state [Connect ''a'', Connect ''b'', Connect ''c'']))
          (map (\<lambda>c. Join c ''42'') [''a'', ''b'', ''c'']))) ''42'' = [''a'', ''b''] \<and>
   numberOfClients (fst (exec init_state [Connect ''a'', Connect ''b'', Join ''a'' ''42''])) ''42'' = 1 \<and>
   on_join ''b'' ''42'' (fst (exec init_state [Connect ''a'', Connect ''b'', Join ''a'' ''42''])) =
     (fst (exec init_state [Connect ''a'', Connect ''b'', Join ''a'' ''42'', Join ''b'' ''42'']),
      [Emit ''b'' ''room_joined'' [ArgRoom ''42'']]) \<and>
   numberOfClients (fst (exec init_state
      [Connect ''a'', Connect ''b'', Connect ''c'', Join ''a'' ''42'', Join ''b'' ''42''])) ''42'' = 2 \<and>
   on_join ''c'' ''42'' (fst (exec init_state
      [Connect ''a'', Connect ''b'', Connect ''c'', Join ''a'' ''42'', Join ''b'' ''42''])) =
     (fst (exec init_state
        [Connect ''a'', Connect ''b'', Connect ''c'', Join ''a'' ''42'', Join ''b'' ''42'']),
      [Emit ''c'' ''full_room'' [ArgRoom ''42'']])"
  using
    join_admission [of "fst (exec init_state [Connect ''a'', Connect ''b'', Connect ''c''])"
      "''42''" "''a''" "''42''" "[''a'', ''b'', ''c'']"]
    join_admission [of "fst (exec init_state [Connect ''a'', Connect ''b'', Join ''a'' ''42''])"
      "''42''" "''b''" "''42''" "[]"]
    join_admission [of "fst (exec init_state
        [Connect ''a'', Connect ''b'', Connect ''c'', Join ''a'' ''42'', Join ''b'' ''42''])"
      "''42''" "''c''" "''42''" "[]"]
  by (simp add: run_defs)

section \<open>Relay\<close>

text \<open>
  C2. The spec has a relay reach the occupants of the named room without the sender, and
  in a room of two reach the other occupant once. The code misses it in the following
  run. Socket \<open>b\<close> joins the room named by the identifier of socket \<open>a\<close>; then
  \<open>a\<close> and \<open>b\<close> join room \<open>42\<close>, which has them as its two occupants. A
  \<^verbatim>\<open>start_call\<close> of \<open>a\<close> for room \<open>42\<close> is delivered to nobody, because
  \<open>b\<close> is in the room by which the sender is excluded.
\<close>

theorem relay_in_pair_lost:
  "snd (exec init_state
      [Connect ''a'', Connect ''b'', Join ''b'' ''a'', Join ''a'' ''42'', Join ''b'' ''42'']) =
     [Emit ''b'' ''room_joined'' [ArgRoom ''a''],
      Emit ''a'' ''room_created'' [ArgRoom ''42''],
      Emit ''b'' ''room_joined'' [ArgRoom ''42'']] \<and>
   reachable (fst (exec init_state
      [Connect ''a'', Connect ''b'', Join ''b'' ''a'', Join ''a'' ''42'', Join ''b'' ''42''])) \<and>
   occupants (fst (exec init_state
      [Connect ''a'', Connect ''b'', Join ''b'' ''a'', Join ''a'' ''42'', Join ''b'' ''42'']))
      ''42'' = [''a'', ''b''] \<and>
   snd (step (fst (exec init_state
      [Connect ''a'', Connect ''b'', Join ''b'' ''a'', Join ''a'' ''42'', Join ''b'' ''42'']))
      (StartCall ''a'' ''42'')) = [] \<and>
   snd (step (fst (exec init_state
      [Connect ''a'', Connect ''b'', Join ''b'' ''a'', Join ''a'' ''42'', Join ''b'' ''42'']))
      (Offer ''a'' \<lparr>roomId = ''42'', sdp = JStr ''v=0'', sdp_type = JStr ''offer''\<rparr>)) = []"
proof -
  have re: "reachable (fst (exec init_state
      [Connect ''a'', Connect ''b'', Join ''b'' ''a'', Join ''a'' ''42'', Join ''b'' ''42'']))"
    by (rule reachable_exec [OF reachable_init])
  show ?thesis using re by (simp add: run_defs)
qed

text \<open>
  C4, as the spec states it: a relay whose sender is not in the named room reaches nobody.
  It fails. Sockets \<open>a\<close> and \<open>b\<close> are in room \<open>42\<close>, socket \<open>c\<close> is connected and
  in no room but its own; a \<^verbatim>\<open>start_call\<close> of \<open>c\<close> for room \<open>42\<close> is delivered to
  \<open>a\<close> and to \<open>b\<close>.
\<close>

theorem relay_from_outsider_counterexample:
  "''c'' \<notin> set (occupants (fst (exec init_state
      [Connect ''a'', Connect ''b'', Connect ''c'', Join ''a'' ''42'', Join ''b'' ''42''])) ''42'') \<and>
   snd (step (fst (exec init_state
      [Connect ''a'', Connect ''b'', Connect ''c'', Join ''a'' ''42'', Join ''b'' ''42'']))
      (StartCall ''c'' ''42'')) =
     [Emit ''a'' ''start_call'' [], Emit ''b'' ''start_call'' []]"
  by (simp add: run_defs)

text \<open>
  C4, amended. The relay handlers do not look at the sender's membership of the named
  room. A relay whose sender is not an occupant of the named room, and in whose own room
  (the room named by the sender's identifier) no occupant of the named room is found, is
  delivered once to every occupant of the named room; it reaches nobody only when that
  room has no occupant.
\<close>

theorem relay_from_outsider:
  "(c \<notin> set (occupants s r) \<and> set (occupants s c) \<inter> set (occupants s r) = {} \<longrightarrow>
      snd (on_start_call c r s) = map (\<lambda>d. Emit d ''start_call'' []) (occupants s r)) \<and>
   (c \<notin> set (occupants s (roomId ev)) \<and>
    set (occupants s c) \<inter> set (occupants s (roomId ev)) = {} \<longrightarrow>
      snd (on_webrtc_offer c ev s) =
        map (\<lambda>d. Emit d ''webrtc_offer'' [ArgSdp (sdp ev)]) (occupants s (roomId ev)) \<and>
      snd (on_webrtc_answer c ev s) =
        map (\<lambda>d. Emit d ''webrtc_answer'' [ArgSdp (sdp ev)]) (occupants s (roomId ev))) \<and>
   (c \<notin> set (occupants s (roomId iev)) \<and>
    set (occupants s c) \<inter> set (occupants s (roomId iev)) = {} \<longrightarrow>
      snd (on_webrtc_ice_candidate c iev s) =
        map (\<lambda>d. Emit d ''webrtc_ice_candidate'' [ArgIce iev]) (occupants s (roomId iev)))"
proof -
  have all: "filter (\<lambda>d. d \<notin> set (occupants s c)) (occupants s q) = occupants s q"
    if "set (occupants s c) \<inter> set (occupants s q) = {}" for q
    using that by (auto simp: filter_id_conv)
  show ?thesis
    by (simp add: on_start_call_def on_webrtc_offer_def on_webrtc_answer_def
        on_webrtc_ice_candidate_def socket_to_emit_def all)
qed

theorem relay_from_outsider_witness:
  "''c'' \<notin> set (occupants (fst (exec init_state
      [Connect ''a'', Connect ''b'', Connect ''c'', Join ''a'' ''42'', Join ''b'' ''42''])) ''42'') \<and>
   set (occupants (fst (exec init_state
      [Connect ''a'', Connect ''b'', Connect ''c'', Join ''a'' ''42'', Join ''b'' ''42''])) ''c'') \<inter>
   set (occupants (fst (exec init_state
      [Connect ''a'', Connect ''b'', Connect ''c'', Join ''a'' ''42'', Join ''b'' ''42''])) ''42'') = {} \<and>
   snd (on_start_call ''c'' ''42'' (fst (exec init_state
      [Connect ''a'', Connect ''b'', Connect ''c'', Join ''a'' ''42'', Join ''b'' ''42'']))) =
     [Emit ''a'' ''start_call'' [], Emit ''b'' ''start_call'' []] \<and>
   snd (on_webrtc_offer ''c''
      \<lparr>roomId = ''42'', sdp = JStr ''v=0'', sdp_type = JStr ''offer''\<rparr>
      (fst (exec init_state
        [Connect ''a'', Connect ''b'', Connect ''c'', Join ''a'' ''42'', Join ''b'' ''42'']))) =
     [Emit ''a'' ''webrtc_offer'' [ArgSdp (JStr ''v=0'')],
      Emit ''b'' ''webrtc_offer'' [ArgSdp (JStr ''v=0'')]] \<and>
   snd (on_webrtc_answer ''c''
      \<lparr>roomId = ''42'', sdp = JStr ''v=0'', sdp_type = JStr ''offer''\<rparr>
      (fst (exec init_state
        [Connect ''a'', Connect ''b'', Connect ''c'', Join ''a'' ''42'', Join ''b'' ''42'']))) =
     [Emit ''a'' ''webrtc_answer'' [ArgSdp (JStr ''v=0'')],
      Emit ''b'' ''webrtc_answer'' [ArgSdp (JStr ''v=0'')]] \<and>
   snd (on_webrtc_ice_candidate ''c''
      \<lparr>roomId = ''42'', label = JNum 0, candidate = JStr ''candidate:1''\<rparr>
      (fst (exec init_state
        [Connect ''a'', Connect ''b'', Connect ''c'', Join ''a'' ''42'', Join ''b'' ''42'']))) =
     [Emit ''a'' ''webrtc_ice_candidate''
        [ArgIce \<lparr>roomId = ''42'', label = JNum 0, candidate = JStr ''candidate:1''\<rparr>],
      Emit ''b'' ''webrtc_ice_candidate''
        [ArgIce \<lparr>roomId = ''42'', label = JNum 0, candidate = JStr ''candidate:1''\<rparr>]]"
  using relay_from_outsider [of "''c''"
      "fst (exec init_state
        [Connect ''a'', Connect ''b'', Connect ''c'', Join ''a'' ''42'', Join ''b'' ''42''])"
      "''42''"
      "\<lparr>roomId = ''42'', sdp = JStr ''v=0'', sdp_type = JStr ''offer''\<rparr>"
      "\<lparr>roomId = ''42'', label = JNum 0, candidate = JStr ''candidate:1''\<rparr>"]
  by (simp add: run_defs)

text \<open>
  C7. Each relay handler sends one message to every socket that the relay reaches (the
  occupants of the named room that are not in the sender's own room), and to no one
  else. Each message of the offer and answer handlers carries the \<^verbatim>\<open>sdp\<close> field of
  the inbound event and nothing else, each message of the candidate handler carries the
  inbound event object itself, each message of the \<^verbatim>\<open>start_call\<close> handler carries
  no argument. Who is reached does not depend on the payload: no payload is inspected,
  changed or dropped.
\<close>

theorem payload_pass_through:
  "snd (on_webrtc_offer c ev s) =
     map (\<lambda>d. Emit d ''webrtc_offer'' [ArgSdp (sdp ev)])
       (filter (\<lambda>d. d \<notin> set (occupants s c)) (occupants s (roomId ev))) \<and>
   snd (on_webrtc_answer c ev s) =
     map (\<lambda>d. Emit d ''webrtc_answer'' [ArgSdp (sdp ev)])
       (filter (\<lambda>d. d \<notin> set (occupants s c)) (occupants s (roomId ev))) \<and>
   snd (on_webrtc_ice_candidate c iev s) =
     map (\<lambda>d. Emit d ''webrtc_ice_candidate'' [ArgIce iev])
       (filter (\<lambda>d. d \<notin> set (occupants s c)) (occupants s (roomId iev))) \<and>
   snd (on_start_call c r s) =
     map (\<lambda>d. Emit d ''start_call'' [])
       (filter (\<lambda>d. d \<notin> set (occupants s c)) (occupants s r)) \<and>
   (d \<in> set (occupants s (roomId ev)) \<and> d \<notin> set (occupants s c) \<longrightarrow>
      Emit d ''webrtc_offer'' [ArgSdp (sdp ev)] \<in> set (snd (on_webrtc_offer c ev s)) \<and>
      Emit d ''webrtc_answer'' [ArgSdp (sdp ev)] \<in> set (snd (on_webrtc_answer c ev s))) \<and>
   (d \<in> set (occupants s (roomId iev)) \<and> d \<notin> set (occupants s c) \<longrightarrow>
      Emit d ''webrtc_ice_candidate'' [ArgIce iev] \<in> set (snd (on_webrtc_ice_candidate c iev s))) \<and>
   (d \<in> set (occupants s r) \<and> d \<notin> set (occupants s c) \<longrightarrow>
      Emit d ''start_call'' [] \<in> set (snd (on_start_call c r s))) \<and>
   (\<forall>m \<in> set (snd (on_webrtc_offer c ev s)). args m = [ArgSdp (sdp ev)]) \<and>
   (\<forall>m \<in> set (snd (on_webrtc_answer c ev s)). args m = [ArgSdp (sdp ev)]) \<and>
   (\<forall>m \<in> set (snd (on_webrtc_ice_candidate c iev s)). args m = [ArgIce iev]) \<and>
   (\<forall>m \<in> set (snd (on_start_call c r s)). args m = []) \<and>
   map recipient (snd (on_webrtc_offer c (ev\<lparr>sdp := x, sdp_type := y\<rparr>) s)) =
     map recipient (snd (on_webrtc_offer c ev s)) \<and>
   map recipient (snd (on_webrtc_answer c (ev\<lparr>sdp := x, sdp_type := y\<rparr>) s)) =
     map recipient (snd (on_webrtc_answer c ev s)) \<and>
   map recipient (snd (on_webrtc_ice_candidate c (iev\<lparr>label := x, candidate := y\<rparr>) s)) =
     map recipient (snd (on_webrtc_ice_candidate c iev s))"
  by (auto simp: on_start_call_def on_webrtc_offer_def on_webrtc_answer_def
      on_webrtc_ice_candidate_def socket_to_emit_def)

theorem payload_pass_through_witness:
  "''b'' \<in> set (occupants (fst (exec init_state
        [Connect ''a'', Connect ''b'', Join ''a'' ''42'', Join ''b'' ''42''])) ''42'') \<and>
   ''b'' \<notin> set (occupants (fst (exec init_state
        [Connect ''a'', Connect ''b'', Join ''a'' ''42'', Join ''b'' ''42''])) ''a'') \<and>
   snd (on_webrtc_offer ''a'' \<lparr>roomId = ''42'', sdp = JStr ''v=0'', sdp_type = JStr ''offer''\<rparr>
      (fst (exec init_state
        [Connect ''a'', Connect ''b'', Join ''a'' ''42'', Join ''b'' ''42'']))) =
     [Emit ''b'' ''webrtc_offer'' [ArgSdp (JStr ''v=0'')]] \<and>
   snd (on_webrtc_answer ''a'' \<lparr>roomId = ''42'', sdp = JStr ''v=0'', sdp_type = JStr ''offer''\<rparr>
      (fst (exec init_state
        [Connect ''a'', Connect ''b'', Join ''a'' ''42'', Join ''b'' ''42'']))) =
     [Emit ''b'' ''webrtc_answer'' [ArgSdp (JStr ''v=0'')]] \<and>
   snd (on_webrtc_ice_candidate ''a''
      \<lparr>roomId = ''42'', label = JNum 0, candidate = JStr ''candidate:1''\<rparr>
      (fst (exec init_state
        [Connect ''a'', Connect ''b'', Join ''a'' ''42'', Join ''b'' ''42'']))) =
     [Emit ''b'' ''webrtc_ice_candidate''
        [ArgIce \<lparr>roomId = ''42'', label = JNum 0, candidate = JStr ''candidate:1''\<rparr>]] \<and>
   snd (on_start_call ''a'' ''42'' (fst (exec init_state
        [Connect ''a'', Connect ''b'', Join ''a'' ''42'', Join ''b'' ''42'']))) =
     [Emit ''b'' ''start_call'' []] \<and>
   map recipient (snd (on_webrtc_offer ''a''
      \<lparr>roomId = ''42'', sdp = JNull, sdp_type = JUndefined\<rparr>
      (fst (exec init_state
        [Connect ''a'', Connect ''b'', Join ''a'' ''42'', Join ''b'' ''42''])))) = [''b'']"
  using
    payload_pass_through [of "''a''"
      "\<lparr>roomId = ''42'', sdp = JStr ''v=0'', sdp_type = JStr ''offer''\<rparr>"
      "fst (exec init_state [Connect ''a'', Connect ''b'', Join ''a'' ''42'', Join ''b'' ''42''])"
      "\<lparr>roomId = ''42'', label = JNum 0, candidate = JStr ''candidate:1''\<rparr>" "''42''"
      "''b''" JNull JUndefined]
  by (simp add: run_defs)

text \<open>
  C9. The four relay handlers return the state they were given: the room table and the
  connected sockets are the same before and after, whether the handler is called
  directly or through the event loop.
\<close>

theorem relay_leaves_state_unchanged:
  "fst (on_start_call c r s) = s \<and>
   fst (on_webrtc_offer c ev s) = s \<and>
   fst (on_webrtc_answer c ev s) = s \<and>
   fst (on_webrtc_ice_candidate c iev s) = s \<and>
   fst (step s (StartCall c r)) = s \<and>
   fst (step s (Offer c ev)) = s \<and>
   fst (step s (Answer c ev)) = s \<and>
   fst (step s (IceCandidate c iev)) = s"
  by (simp add: on_start_call_def on_webrtc_offer_def on_webrtc_answer_def
      on_webrtc_ice_candidate_def)

section \<open>Rooms and their occupants\<close>

text \<open>
  C3. In every reachable state every room has at most two occupants, and it still has at
  most two after a join, after any of the four relays, after a disconnect and after any
  event of the event loop. (A new connection is taken to arrive under an identifier that
  is not the name of a room in the table.)
\<close>

theorem room_capacity:
  "reachable s \<Longrightarrow>
   numberOfClients s r \<le> 2 \<and>
   numberOfClients (fst (on_join c q s)) r \<le> 2 \<and>
   numberOfClients (fst (on_start_call c q s)) r \<le> 2 \<and>
   numberOfClients (fst (on_webrtc_offer c ev s)) r \<le> 2 \<and>
   numberOfClients (fst (on_webrtc_answer c ev s)) r \<le> 2 \<and>
   numberOfClients (fst (on_webrtc_ice_candidate c iev s)) r \<le> 2 \<and>
   numberOfClients (on_disconnect c s) r \<le> 2 \<and>
   numberOfClients (fst (step s e)) r \<le> 2"
proof -
  assume re: "reachable s"
  have inv: "\<And>r xs. rooms s r = Some xs \<Longrightarrow> distinct xs \<and> xs \<noteq> [] \<and> length xs \<le> 2"
    using re by (rule reachable_rooms_inv)
  have cap: "numberOfClients s r \<le> 2"
    using inv [of r] by (simp add: numberOfClients_def split: option.splits)
  have j: "numberOfClients (fst (on_join c q s)) r \<le> 2"
    using on_join_rooms_inv [of s c q r, OF inv]
    by (simp add: numberOfClients_def split: option.splits)
  have d: "numberOfClients (on_disconnect c s) r \<le> 2"
    using on_disconnect_rooms_inv [of s c r, OF inv]
    by (simp add: numberOfClients_def split: option.splits)
  have st: "numberOfClients (fst (step s e)) r \<le> 2"
    using reachable_rooms_inv [OF reachable_step [OF re], of e r]
    by (simp add: numberOfClients_def split: option.splits)
  show ?thesis
    using cap j d st
    by (simp add: on_start_call_def on_webrtc_offer_def on_webrtc_answer_def
        on_webrtc_ice_candidate_def)
qed

theorem room_capacity_witness:
  "reachable (fst (exec init_state
      [Connect ''a'', Connect ''b'', Connect ''c'', Join ''a'' ''42'', Join ''b'' ''42''])) \<and>
   numberOfClients (fst (exec init_state
      [Connect ''a'', Connect ''b'', Connect ''c'', Join ''a'' ''42'', Join ''b'' ''42''])) ''42'' = 2 \<and>
   numberOfClients (fst (on_join ''c'' ''42'' (fst (exec init_state
      [Connect ''a'', Connect ''b'', Connect ''c'', Join ''a'' ''42'', Join ''b'' ''42''])))) ''42'' \<le> 2 \<and>
   numberOfClients (fst (step (fst (exec init_state
      [Connect ''a'', Connect ''b'', Connect ''c'', Join ''a'' ''42'', Join ''b'' ''42'']))
      (Join ''c'' ''42''))) ''42'' \<le> 2"
proof -
  have re: "reachable (fst (exec init_state
      [Connect ''a'', Connect ''b'', Connect ''c'', Join ''a'' ''42'', Join ''b'' ''42'']))"
    by (rule reachable_exec [OF reachable_init])
  have "numberOfClients (fst (exec init_state
      [Connect ''a'', Connect ''b'', Connect ''c'', Join ''a'' ''42'', Join ''b'' ''42''])) ''42'' = 2"
    by (simp add: run_defs)
  then show ?thesis
    using re room_capacity [OF re, of "''42''" "''c''" "''42''" _ _ "Join ''c'' ''42''"] by simp
qed

text \<open>
  C5, as the spec states it: a connection is in at most one room, and a connection that
  joins a second room is no longer an occupant of the first. It fails. Socket \<open>a\<close>
  joins room \<open>r1\<close> and then room \<open>r2\<close>; both joins are answered \<^verbatim>\<open>room_created\<close>,
  and afterwards \<open>a\<close> is an occupant of \<open>r1\<close> and of \<open>r2\<close>.
\<close>

theorem one_room_counterexample:
  "snd (exec init_state [Connect ''a'', Join ''a'' ''r1'', Join ''a'' ''r2'']) =
     [Emit ''a'' ''room_created'' [ArgRoom ''r1''], Emit ''a'' ''room_created'' [ArgRoom ''r2'']] \<and>
   ''a'' \<in> set (occupants (fst (exec init_state
      [Connect ''a'', Join ''a'' ''r1'', Join ''a'' ''r2''])) ''r1'') \<and>
   ''a'' \<in> set (occupants (fst (exec init_state
      [Connect ''a'', Join ''a'' ''r1'', Join ''a'' ''r2''])) ''r2'') \<and>
   ''r1'' \<noteq> ''r2''"
  by (simp add: run_defs)

text \<open>
  C5, amended. A connection can be in several rooms at a time: the join handler never
  removes a socket from a room, and it adds the requester to the named room when that
  room has fewer than two occupants. So a socket that joins \<open>r1\<close> and then joins
  \<open>r2\<close>, admitted both times, is an occupant of both.
\<close>

theorem join_keeps_membership:
  "(d \<in> set (occupants s q) \<longrightarrow> d \<in> set (occupants (fst (on_join c r s)) q)) \<and>
   (numberOfClients s r < 2 \<longrightarrow> c \<in> set (occupants (fst (on_join c r s)) r)) \<and>
   (numberOfClients s r1 < 2 \<and> numberOfClients (fst (on_join c r1 s)) r2 < 2 \<longrightarrow>
      c \<in> set (occupants (fst (on_join c r2 (fst (on_join c r1 s)))) r1) \<and>
      c \<in> set (occupants (fst (on_join c r2 (fst (on_join c r1 s)))) r2))"
proof -
  have keep: "d \<in> set (occupants s q) \<Longrightarrow> d \<in> set (occupants (fst (on_join c r s)) q)"
    for d q c r s
    by (auto simp: on_join_def occupants_socket_join set_set_add)
  have add: "numberOfClients s r < 2 \<Longrightarrow> c \<in> set (occupants (fst (on_join c r s)) r)"
    for c r s
    by (auto simp: on_join_def occupants_socket_join set_set_add)
  show ?thesis using keep add by blast
qed

theorem join_keeps_membership_witness:
  "numberOfClients (fst (exec init_state [Connect ''a''])) ''r1'' < 2 \<and>
   numberOfClients (fst (on_join ''a'' ''r1'' (fst (exec init_state [Connect ''a'']))))
      ''r2'' < 2 \<and>
   ''a'' \<in> set (occupants (fst (on_join ''a'' ''r2''
      (fst (on_join ''a'' ''r1'' (fst (exec init_state [Connect ''a'']))))) ) ''r1'') \<and>
   ''a'' \<in> set (occupants (fst (on_join ''a'' ''r2''
      (fst (on_join ''a'' ''r1'' (fst (exec init_state [Connect ''a'']))))) ) ''r2'')"
  using join_keeps_membership [of "''a''" "fst (exec init_state [Connect ''a''])" "''a''"
      "''a''" "''r1''" "''r1''" "''r2''"]
  by (simp add: run_defs)

text \<open>
  C6. A disconnect removes the departing socket from every room and from the connected
  sockets, leaves every other occupant where it was, and leaves no room with an empty
  occupant list. When the departing socket was the only occupant of a room, the room is
  gone from the table and the next join to that identifier is answered
  \<^verbatim>\<open>room_created\<close>. When it was one of two occupants, the other one is the only
  occupant afterwards. No reachable state has a room without occupants.
\<close>

theorem disconnect_leaves_rooms:
  "c \<notin> set (occupants (on_disconnect c s) r) \<and>
   c \<notin> set (sockets (on_disconnect c s)) \<and>
   (d \<noteq> c \<longrightarrow> (d \<in> set (occupants (on_disconnect c s) r) \<longleftrightarrow> d \<in> set (occupants s r))) \<and>
   rooms (on_disconnect c s) r \<noteq> Some [] \<and>
   (occupants s r = [c] \<longrightarrow>
      rooms (on_disconnect c s) r = None \<and>
      snd (on_join d r (on_disconnect c s)) = [Emit d ''room_created'' [ArgRoom r]]) \<and>
   (reachable s \<and> set (occupants s r) = {c, d} \<and> c \<noteq> d \<longrightarrow>
      occupants (on_disconnect c s) r = [d]) \<and>
   (reachable s \<longrightarrow> rooms s r \<noteq> Some [])"
proof -
  have sole: "rooms (on_disconnect c s) r = None \<and>
      snd (on_join d r (on_disconnect c s)) = [Emit d ''room_created'' [ArgRoom r]]"
    if "occupants s r = [c]"
  proof -
    from that have "rooms s r = Some [c]" by (simp add: occupants_def split: option.splits)
    then have gone: "rooms (on_disconnect c s) r = None" by (simp add: rooms_on_disconnect)
    then have "numberOfClients (on_disconnect c s) r = 0" by (simp add: numberOfClients_def)
    then show ?thesis using gone by (simp add: on_join_empty)
  qed
  have two: "occupants (on_disconnect c s) r = [d]"
    if "reachable s" and "set (occupants s r) = {c, d}" and "c \<noteq> d"
    using that reachable_occupants [of s r]
    by (simp add: occupants_on_disconnect removeAll_of_two)
  have nonempty: "rooms s r \<noteq> Some []" if "reachable s"
    using reachable_rooms_inv [OF that, of r "[]"] by auto
  have empty: "rooms (on_disconnect c s) r \<noteq> Some []"
    by (simp add: rooms_on_disconnect split: option.splits)
  have rest: "c \<notin> set (occupants (on_disconnect c s) r) \<and>
      (d \<noteq> c \<longrightarrow> (d \<in> set (occupants (on_disconnect c s) r) \<longleftrightarrow> d \<in> set (occupants s r)))"
    by (simp add: occupants_on_disconnect)
  have sock: "c \<notin> set (sockets (on_disconnect c s))"
    by (simp add: on_disconnect_def)
  show ?thesis using sole two nonempty empty rest sock by blast
qed

theorem disconnect_leaves_rooms_witness:
  "occupants (fst (exec init_state [Connect ''a'', Connect ''b'', Join ''a'' ''42''])) ''42'' =
     [''a''] \<and>
   rooms (on_disconnect ''a''
      (fst (exec init_state [Connect ''a'', Connect ''b'', Join ''a'' ''42'']))) ''42'' = None \<and>
   snd (on_join ''b'' ''42'' (on_disconnect ''a''
      (fst (exec init_state [Connect ''a'', Connect ''b'', Join ''a'' ''42''])))) =
     [Emit ''b'' ''room_created'' [ArgRoom ''42'']] \<and>
   reachable (fst (exec init_state
      [Connect ''a'', Connect ''b'', Join ''a'' ''42'', Join ''b'' ''42''])) \<and>
   set (occupants (fst (exec init_state
      [Connect ''a'', Connect ''b'', Join ''a'' ''42'', Join ''b'' ''42''])) ''42'') =
     {''a'', ''b''} \<and>
   occupants (on_disconnect ''a'' (fst (exec init_state
      [Connect ''a'', Connect ''b'', Join ''a'' ''42'', Join ''b'' ''42'']))) ''42'' = [''b'']"
proof -
  have re: "reachable (fst (exec init_state
      [Connect ''a'', Connect ''b'', Join ''a'' ''42'', Join ''b'' ''42'']))"
    by (rule reachable_exec [OF reachable_init])
  have occ: "set (occupants (fst (exec init_state
      [Connect ''a'', Connect ''b'', Join ''a'' ''42'', Join ''b'' ''42''])) ''42'') =
     {''a'', ''b''}"
    by (simp add: run_defs)
  have one: "occupants (fst (exec init_state
      [Connect ''a'', Connect ''b'', Join ''a'' ''42''])) ''42'' = [''a'']"
    by (simp add: run_defs)
  show ?thesis
    using re occ one
      disconnect_leaves_rooms [of "''a''"
        "fst (exec init_state [Connect ''a'', Connect ''b'', Join ''a'' ''42''])" "''42''" "''b''"]
      disconnect_leaves_rooms [of "''a''"
        "fst (exec init_state [Connect ''a'', Connect ''b'', Join ''a'' ''42'', Join ''b'' ''42''])"
        "''42''" "''b''"]
    by simp
qed

text \<open>
  C10. When the only occupant of a room joins that room again, the handler counts one
  occupant, answers \<^verbatim>\<open>room_joined\<close> to the requester and returns the state it was
  given.
\<close>

theorem rejoin_sole_occupant:
  "occupants s r = [c] \<Longrightarrow> on_join c r s = (s, [Emit c ''room_joined'' [ArgRoom r]])"
proof -
  assume occ: "occupants s r = [c]"
  then have r: "rooms s r = Some [c]" by (simp add: occupants_def split: option.splits)
  then have "(rooms s)(r \<mapsto> [c]) = rooms s" by (simp add: fun_upd_idem)
  then have "socket_join c r s = s" using r by (simp add: socket_join_def set_add_def)
  then show ?thesis using r by (simp add: on_join_def numberOfClients_def socket_emit_def)
qed

theorem rejoin_sole_occupant_witness:
  "occupants (fst (exec init_state [Connect ''a'', Join ''a'' ''42''])) ''42'' = [''a''] \<and>
   on_join ''a'' ''42'' (fst (exec init_state [Connect ''a'', Join ''a'' ''42''])) =
     (fst (exec init_state [Connect ''a'', Join ''a'' ''42'']),
      [Emit ''a'' ''room_joined'' [ArgRoom ''42'']])"
proof -
  have occ: "occupants (fst (exec init_state [Connect ''a'', Join ''a'' ''42''])) ''42'' = [''a'']"
    by (simp add: run_defs)
  show ?thesis using occ rejoin_sole_occupant [OF occ] by simp
qed

section \<open>Start-up\<close>

text \<open>
  C8, as the spec states it: the port is the value of \<^verbatim>\<open>PORT\<close> whenever the variable
  is provided. It fails when \<^verbatim>\<open>PORT\<close> is set to the empty string: the port is 3000.
\<close>

theorem port_counterexample:
  "port [(''PORT'', '''')] = PortNumber 3000 \<and> port [(''PORT'', '''')] \<noteq> PortString ''''"
  by (simp add: port_def)

text \<open>
  C8, amended. The port is the value of \<^verbatim>\<open>PORT\<close> when the variable is set to a string
  that is not empty, and 3000 when it is not set or set to the empty string. No other
  variable of the environment has a part in it.
\<close>

theorem port_from_environment:
  "(map_of env ''PORT'' = Some v \<and> v \<noteq> [] \<longrightarrow> port env = PortString v) \<and>
   (map_of env ''PORT'' = None \<or> map_of env ''PORT'' = Some [] \<longrightarrow> port env = PortNumber 3000) \<and>
   (map_of env ''PORT'' = map_of env' ''PORT'' \<longrightarrow> port env = port env')"
  by (auto simp: port_def)

theorem port_from_environment_witness:
  "map_of [(''HOME'', ''/root''), (''PORT'', ''8080'')] ''PORT'' = Some ''8080'' \<and>
   port [(''HOME'', ''/root''), (''PORT'', ''8080'')] = PortString ''8080'' \<and>
   map_of [(''HOME'', ''/root'')] ''PORT'' = None \<and>
   port [(''HOME'', ''/root'')] = PortNumber 3000 \<and>
   port [(''HOME'', ''/root''), (''PORT'', ''8080'')] = port [(''PORT'', ''8080'')]"
  using
    port_from_environment [of "[(''HOME'', ''/root''), (''PORT'', ''8080'')]" "''8080''"
      "[(''PORT'', ''8080'')]"]
    port_from_environment [of "[(''HOME'', ''/root'')]" "[]" "[]"]
  by (simp add: port_def)

end
